theory Spec2Isabelle
  imports Main "HOL-Library.Word"
begin

section \<open>The SFT contract of massa-standards (assembly/contracts/SFT/SFT.ts)\<close>

text \<open>
  The contract keeps all of its state in the host's key-value store and reads the caller
  from the host's context. The model passes both explicitly: every function takes the
  store, an entry point that writes returns the store it leaves behind, and the caller is
  an argument. Arguments arrive decoded (the \<^verbatim>\<open>Args\<close> deserialiser is a
  library of its own), and \<^verbatim>\<open>generateEvent\<close> is left out: an event never
  touches the store. A name the source starts with an underscore ends with a prime here:
  \<^verbatim>\<open>_balance\<close> is \<open>balance'\<close>, \<^verbatim>\<open>_transfer\<close> is \<open>transfer'\<close>.
\<close>

subsection \<open>Values: u64, byte arrays, strings\<close>

text \<open>
  \<^verbatim>\<open>u64\<close> is a 64-bit word: \<open>+\<close> and \<open>-\<close> wrap around as AssemblyScript's do,
  \<open>\<le>\<close> and \<open><\<close> compare unsigned. A \<^verbatim>\<open>StaticArray<u8>\<close> and a string are both
  byte sequences (\<open>char\<close> is a byte; a string stands for its UTF-8 encoding), so
  \<^verbatim>\<open>stringToBytes\<close> and \<^verbatim>\<open>bytesToString\<close> change nothing. An
  \<^verbatim>\<open>Address\<close> wraps a string without validating it (the tests use '2x' and '3x').
\<close>

type_synonym u64 = "64 word"
type_synonym bytes = string
type_synonym address = string

definition stringToBytes :: "string \<Rightarrow> bytes" where
  "stringToBytes str = str"

definition bytesToString :: "bytes \<Rightarrow> string" where
  "bytesToString arr = arr"

text \<open>Little-endian bytes of a number, least significant first, and back.\<close>

fun le_bytes :: "nat \<Rightarrow> nat \<Rightarrow> bytes" where
  "le_bytes 0 n = []"
| "le_bytes (Suc k) n = char_of n # le_bytes k (n div 256)"

fun le_nat :: "bytes \<Rightarrow> nat" where
  "le_nat [] = 0"
| "le_nat (c # cs) = of_char c + 256 * le_nat cs"

text \<open>
  \<^verbatim>\<open>u64ToBytes\<close> writes the eight bytes of a u64; \<^verbatim>\<open>bytesToU64\<close> reads
  them back. The contract only decodes what it stored with \<^verbatim>\<open>u64ToBytes\<close>
  (or the empty array of an absent key, read here as 0); on any other length
  \<open>bytesToU64\<close> is the little-endian value of the bytes, cut to 64 bits.
\<close>

definition u64ToBytes :: "u64 \<Rightarrow> bytes" where
  "u64ToBytes val = le_bytes 8 (unat val)"

definition bytesToU64 :: "bytes \<Rightarrow> u64" where
  "bytesToU64 arr = word_of_nat (le_nat arr)"

text \<open>\<^verbatim>\<open>tokenId.toString()\<close>: the decimal digits of a u64, no leading zero.\<close>

definition digit :: "nat \<Rightarrow> char" where
  "digit d = ''0123456789'' ! d"

function decimal :: "nat \<Rightarrow> string" where
  "decimal n = (if n < 10 then [digit n]
                else decimal (n div 10) @ [digit (n mod 10)])"
  by pat_completeness auto
termination
  by (relation "measure id") auto

declare decimal.simps [simp del]

definition toString :: "u64 \<Rightarrow> string" where
  "toString val = decimal (unat val)"

text \<open>
  \<^verbatim>\<open>value.split(',')\<close>: the pieces between the separators. The result is never
  empty: the empty string splits into one empty piece.
\<close>

fun split :: "char \<Rightarrow> string \<Rightarrow> string list" where
  "split sep [] = [[]]"
| "split sep (c # cs) =
     (if c = sep then [] # split sep cs
      else (c # hd (split sep cs)) # tl (split sep cs))"

subsection \<open>The store\<close>

text \<open>
  \<^verbatim>\<open>Storage\<close> of massa-as-sdk: a map from byte keys to byte values; a string key
  or value is stored as its bytes.
\<close>

type_synonym storage = "bytes \<rightharpoonup> bytes"

definition Storage_has :: "storage \<Rightarrow> bytes \<Rightarrow> bool" where
  "Storage_has s key = (s key \<noteq> None)"

text \<open>
  Modelled from the spec: \<^verbatim>\<open>Storage.get\<close> is the host's, not this repository's.
  An absent key reads as the empty value: the spec gives \<^verbatim>\<open>getApproved\<close> no failure
  ("empty if none"), the test 'transferFrom' expects \<^verbatim>\<open>getApproved\<close> to return ''
  once the entry is deleted, and the first \<^verbatim>\<open>approve\<close> of the test 'approval'
  reads the entry before any exists.
\<close>

definition Storage_get :: "storage \<Rightarrow> bytes \<Rightarrow> bytes" where
  "Storage_get s key = (case s key of None \<Rightarrow> [] | Some v \<Rightarrow> v)"

definition Storage_set :: "storage \<Rightarrow> bytes \<Rightarrow> bytes \<Rightarrow> storage" where
  "Storage_set s key v = s(key \<mapsto> v)"

text \<open>
  Deleting an absent key changes nothing: the test 'transfer call' transfers a token
  that has no approval entry, and \<^verbatim>\<open>_transfer\<close> deletes it all the same.
\<close>

definition Storage_del :: "storage \<Rightarrow> bytes \<Rightarrow> storage" where
  "Storage_del s key = s(key := None)"

subsection \<open>Keys\<close>

definition nameKey :: string where "nameKey = ''name''"
definition symbolKey :: string where "symbolKey = ''symbol''"
definition totalSupplyKey :: bytes where "totalSupplyKey = stringToBytes ''totalSupply''"
definition baseURIKey :: string where "baseURIKey = ''baseURI''"
definition ownerKey :: string where "ownerKey = ''Owner''"
definition counterKey :: bytes where "counterKey = stringToBytes ''Counter''"
definition approvedTokenKey :: string where "approvedTokenKey = ''approved_''"
definition initCounter :: u64 where "initCounter = 0"
definition BALANCE_KEY :: string where "BALANCE_KEY = ''BALANCE''"

text \<open>The key of an approval entry, \<^verbatim>\<open>approvedTokenKey + tokenId.toString()\<close>.\<close>

definition approvedKey :: "u64 \<Rightarrow> bytes" where
  "approvedKey tokenId = stringToBytes (approvedTokenKey @ toString tokenId)"

definition getBalanceKey :: "address \<Rightarrow> u64 \<Rightarrow> bytes" where
  "getBalanceKey addr ident = stringToBytes (BALANCE_KEY @ addr @ toString ident)"

subsection \<open>Results\<close>

text \<open>
  Each \<^verbatim>\<open>assert\<close> of the contract aborts the call; the errors are named as the
  spec names them, after the assertion's message. The contract has no overflow check,
  so there is no error for it. A result pairs the outcome with the store at the moment
  the call returned or aborted: the writes made before a failing assertion are visible
  in it (the host may discard them afterwards). An assertion helper
  (\<^verbatim>\<open>assertOwnsSFT\<close>, \<^verbatim>\<open>assertOnlyApproved\<close>) is the condition it asserts;
  its caller aborts where the condition is false.
\<close>

datatype error =
    SupplyExceeded        \<comment> \<open>'Max supply reached'\<close>
  | InsufficientBalance   \<comment> \<open>'Insufficient balance'\<close>
  | NotOwner              \<comment> \<open>'You are not the owner of ...'\<close>
  | SelfApproval          \<comment> \<open>'You are already the owner of ...'\<close>
  | AlreadyApproved       \<comment> \<open>'You are already allowed to transfer ...'\<close>
  | NotApproved           \<comment> \<open>'You are not allowed to transfer this token'\<close>
  | NoWriteAccess         \<comment> \<open>the constructor's \<^verbatim>\<open>assert(callerHasWriteAccess())\<close>\<close>
  | NotContractOwner      \<comment> \<open>'The caller is not the owner of the contract'\<close>

type_synonym 'a result = "(error + 'a) \<times> storage"

subsection \<open>Construction, supply and mint\<close>

definition constructor ::
  "storage \<Rightarrow> address \<Rightarrow> bool \<Rightarrow> string \<Rightarrow> string \<Rightarrow> u64 \<Rightarrow> string \<Rightarrow> unit result" where
  "constructor s caller callerHasWriteAccess name symbol totalSupply baseURI =
     (if \<not> callerHasWriteAccess then (Inl NoWriteAccess, s)
      else
        let s1 = Storage_set s (stringToBytes nameKey) (stringToBytes name);
            s2 = Storage_set s1 (stringToBytes symbolKey) (stringToBytes symbol);
            s3 = Storage_set s2 totalSupplyKey (u64ToBytes totalSupply);
            s4 = Storage_set s3 (stringToBytes baseURIKey) (stringToBytes baseURI);
            s5 = Storage_set s4 (stringToBytes ownerKey) (stringToBytes caller);
            s6 = Storage_set s5 counterKey (u64ToBytes initCounter)
        in (Inr (), s6))"

definition onlyOwner' :: "storage \<Rightarrow> address \<Rightarrow> bool" where
  "onlyOwner' s caller = (caller = bytesToString (Storage_get s (stringToBytes ownerKey)))"

definition setURI :: "storage \<Rightarrow> address \<Rightarrow> string \<Rightarrow> unit result" where
  "setURI s caller newBaseURI =
     (if \<not> onlyOwner' s caller then (Inl NotContractOwner, s)
      else (Inr (), Storage_set s (stringToBytes baseURIKey) (stringToBytes newBaseURI)))"

definition currentSupply' :: "storage \<Rightarrow> u64" where
  "currentSupply' s = bytesToU64 (Storage_get s counterKey)"

definition increment' :: "storage \<Rightarrow> storage" where
  "increment' s =
     (let currentID = bytesToU64 (Storage_get s counterKey)
      in Storage_set s counterKey (u64ToBytes (currentID + 1)))"

definition balance' :: "storage \<Rightarrow> address \<Rightarrow> u64 \<Rightarrow> u64" where
  "balance' s addr ident =
     (let key = getBalanceKey addr ident
      in if Storage_has s key then bytesToU64 (Storage_get s key) else 0)"

definition setBalance' :: "storage \<Rightarrow> address \<Rightarrow> u64 \<Rightarrow> u64 \<Rightarrow> storage" where
  "setBalance' s addr ident balance =
     Storage_set s (getBalanceKey addr ident) (u64ToBytes balance)"

definition mint :: "storage \<Rightarrow> address \<Rightarrow> u64 \<Rightarrow> unit result" where
  "mint s mintAddress amount =
     (if \<not> (bytesToU64 (Storage_get s totalSupplyKey) > currentSupply' s)
      then (Inl SupplyExceeded, s)
      else
        let s1 = increment' s;
            tokenToMint = currentSupply' s1
        in (Inr (),
            setBalance' s1 mintAddress tokenToMint
              (balance' s1 mintAddress tokenToMint + amount)))"

definition balanceOf :: "storage \<Rightarrow> address \<Rightarrow> u64 \<Rightarrow> bytes result" where
  "balanceOf s addr ident = (Inr (u64ToBytes (balance' s addr ident)), s)"

subsection \<open>Approvals\<close>

definition removeApprovals' :: "storage \<Rightarrow> u64 \<Rightarrow> storage" where
  "removeApprovals' s tokenId = Storage_del s (approvedKey tokenId)"

text \<open>
  \<^verbatim>\<open>isApproved\<close> takes its arguments serialised; \<^verbatim>\<open>approve\<close> and
  \<^verbatim>\<open>assertOnlyApproved\<close> serialise an address and a token id for it, and it
  reads the same two values back.
\<close>

definition isApproved :: "storage \<Rightarrow> string \<Rightarrow> u64 \<Rightarrow> bool" where
  "isApproved s addr tokenId =
     (let key = approvedKey tokenId;
          val = bytesToString (Storage_get s key);
          addresses = split CHR '','' val
      in addr \<in> set addresses)"

definition getApproved :: "storage \<Rightarrow> u64 \<Rightarrow> bytes result" where
  "getApproved s tokenId =
     (let key = approvedKey tokenId
      in (Inr (stringToBytes (bytesToString (Storage_get s key))), s))"

definition approve' :: "storage \<Rightarrow> u64 \<Rightarrow> address \<Rightarrow> storage" where
  "approve' s tokenId spenderAddress =
     (let key = approvedKey tokenId;
          val = (if Storage_has s key
                 then bytesToString (Storage_get s key) @ '','' @ spenderAddress
                 else spenderAddress)
      in Storage_set s key (stringToBytes val))"

definition assertOwnsSFT :: "storage \<Rightarrow> address \<Rightarrow> u64 \<Rightarrow> bool" where
  "assertOwnsSFT s caller tokenId = (balance' s caller tokenId \<ge> 1)"

definition assertOnlyApproved :: "storage \<Rightarrow> string \<Rightarrow> u64 \<Rightarrow> bool" where
  "assertOnlyApproved s from tokenId = isApproved s from tokenId"

definition approve :: "storage \<Rightarrow> address \<Rightarrow> u64 \<Rightarrow> address \<Rightarrow> unit result" where
  "approve s callerAddress tokenId toAddress =
     (if \<not> assertOwnsSFT s callerAddress tokenId then (Inl NotOwner, s)
      else if \<not> (callerAddress \<noteq> toAddress) then (Inl SelfApproval, s)
      else if \<not> (\<not> isApproved s callerAddress tokenId) then (Inl AlreadyApproved, s)
      else (Inr (), approve' s tokenId toAddress))"

subsection \<open>Transfers\<close>

definition transfer' ::
  "storage \<Rightarrow> address \<Rightarrow> address \<Rightarrow> u64 \<Rightarrow> u64 \<Rightarrow> unit result" where
  "transfer' s from to tokenId amount =
     (let s1 = removeApprovals' s tokenId;
          oldBalance = balance' s1 from tokenId
      in if \<not> (oldBalance \<ge> amount) then (Inl InsufficientBalance, s1)
         else
           let s2 = setBalance' s1 from tokenId (oldBalance - amount)
           in (Inr (), setBalance' s2 to tokenId (balance' s2 to tokenId + amount)))"

definition transfer :: "storage \<Rightarrow> address \<Rightarrow> address \<Rightarrow> u64 \<Rightarrow> u64 \<Rightarrow> unit result" where
  "transfer s caller toAddress tokenId amount =
     (let fromAddress = caller
      in transfer' s fromAddress toAddress tokenId amount)"

definition transferFrom :: "storage \<Rightarrow> string \<Rightarrow> string \<Rightarrow> u64 \<Rightarrow> unit result" where
  "transferFrom s from to tokenId =
     (if \<not> assertOnlyApproved s from tokenId then (Inl NotApproved, s)
      else (Inr (), removeApprovals' s tokenId))"

subsection \<open>What a client sees, and the runs the tests make\<close>

text \<open>
  The test 'approval' reads the approval list as
  \<^verbatim>\<open>bytesToString(getApproved(...)).split(',')\<close>.
\<close>

definition approvedAddressArray :: "storage \<Rightarrow> u64 \<Rightarrow> string list" where
  "approvedAddressArray s tokenId =
     (case fst (getApproved s tokenId) of
        Inr allowedAddress \<Rightarrow> split CHR '','' (bytesToString allowedAddress)
      | Inl e \<Rightarrow> [])"

text \<open>
  A run of \<^verbatim>\<open>approve\<close> calls on one token, each by its own caller, stopping at
  the first that aborts (the \<^verbatim>\<open>forEach\<close> of the test 'approval'), and a run of
  \<^verbatim>\<open>mint\<close> calls (the loop of the test 'mint call').
\<close>

fun approveEach :: "storage \<Rightarrow> u64 \<Rightarrow> (address \<times> address) list \<Rightarrow> unit result" where
  "approveEach s tokenId [] = (Inr (), s)"
| "approveEach s tokenId ((caller, toAddress) # rest) =
     (case approve s caller tokenId toAddress of
        (Inr _, s') \<Rightarrow> approveEach s' tokenId rest
      | (Inl e, s') \<Rightarrow> (Inl e, s'))"

fun mintEach :: "storage \<Rightarrow> (address \<times> u64) list \<Rightarrow> unit result" where
  "mintEach s [] = (Inr (), s)"
| "mintEach s ((mintAddress, amount) # rest) =
     (case mint s mintAddress amount of
        (Inr _, s') \<Rightarrow> mintEach s' rest
      | (Inl e, s') \<Rightarrow> (Inl e, s'))"

text \<open>
  The spec's reading of the stored approval list: the addresses in insertion order,
  joined with the delimiter.
\<close>

fun join :: "string \<Rightarrow> string list \<Rightarrow> string" where
  "join sep [] = []"
| "join sep [a] = a"
| "join sep (a # b # bs) = a @ sep @ join sep (b # bs)"

subsection \<open>Sequences of calls\<close>

text \<open>
  The entry points that write, as calls a client can make in any order; the caller of
  each is part of the call. \<open>invoke\<close> runs one call on a store.
\<close>

datatype call =
    Constructor address bool string string u64 string
  | SetURI address string
  | Mint address u64
  | Transfer address address u64 u64
  | TransferFrom string string u64
  | Approve address u64 address

fun invoke :: "storage \<Rightarrow> call \<Rightarrow> unit result" where
  "invoke s (Constructor caller callerHasWriteAccess name symbol totalSupply baseURI) =
     constructor s caller callerHasWriteAccess name symbol totalSupply baseURI"
| "invoke s (SetURI caller newBaseURI) = setURI s caller newBaseURI"
| "invoke s (Mint mintAddress amount) = mint s mintAddress amount"
| "invoke s (Transfer caller toAddress tokenId amount) =
     transfer s caller toAddress tokenId amount"
| "invoke s (TransferFrom from to tokenId) = transferFrom s from to tokenId"
| "invoke s (Approve caller tokenId toAddress) = approve s caller tokenId toAddress"

text \<open>
  What the host keeps of a call. The writes of a call that returned are kept. Of a call
  that aborted the host discards them (section 7 of the spec), while the tests' mock
  keeps them; \<open>discard\<close> chooses, and a run of calls is taken under either.
\<close>

definition commit :: "bool \<Rightarrow> storage \<Rightarrow> unit result \<Rightarrow> storage" where
  "commit discard s r =
     (case fst r of Inr u \<Rightarrow> snd r | Inl e \<Rightarrow> (if discard then s else snd r))"

fun run :: "bool \<Rightarrow> storage \<Rightarrow> call list \<Rightarrow> storage" where
  "run discard s [] = s"
| "run discard s (c # cs) = run discard (commit discard s (invoke s c)) cs"

text \<open>A \<^verbatim>\<open>transfer\<close> or \<^verbatim>\<open>transferFrom\<close> call on the given token.\<close>

fun transfersToken :: "u64 \<Rightarrow> call \<Rightarrow> bool" where
  "transfersToken t (Transfer caller toAddress tokenId amount) = (tokenId = t)"
| "transfersToken t (TransferFrom from to tokenId) = (tokenId = t)"
| "transfersToken t c = False"

text \<open>
  The grantee of a call, when the call is an \<^verbatim>\<open>approve\<close> on the given token that
  succeeds on the store; and the grantees of all such calls of a run, in the order of
  the calls.
\<close>

fun approvedBy :: "storage \<Rightarrow> u64 \<Rightarrow> call \<Rightarrow> address list" where
  "approvedBy s t (Approve caller tokenId toAddress) =
     (if tokenId = t \<and> fst (approve s caller tokenId toAddress) = Inr ()
      then [toAddress] else [])"
| "approvedBy s t c = []"

fun granted :: "bool \<Rightarrow> storage \<Rightarrow> u64 \<Rightarrow> call list \<Rightarrow> address list" where
  "granted discard s t [] = []"
| "granted discard s t (c # cs) =
     approvedBy s t c @ granted discard (commit discard s (invoke s c)) t cs"

text \<open>
  An approval entry after more addresses are appended to it, each after a comma; the
  first address of an absent entry stands alone.
\<close>

fun extend :: "bytes option \<Rightarrow> address list \<Rightarrow> bytes option" where
  "extend e [] = e"
| "extend e (g # gs) =
     extend (Some (case e of None \<Rightarrow> g | Some v \<Rightarrow> v @ '','' @ g)) gs"

text \<open>
  The stores the examples below run on, each reached from the empty store through the
  contract's entry points: the contract deployed by the tests' caller; two tokens minted
  to the caller, which exhausts a supply of two; token 1 approved for '2x' and '3x' as
  in the test 'approval'; and token 1 held by both the caller and '2x', with '2x'
  approved.
\<close>

definition callerAddress :: address where
  "callerAddress = ''A12UBnqTHDQALpocVBnkPNy7y5CndUJQTLutaVDDFgMJcq5kQiKq''"

definition deployed :: "u64 \<Rightarrow> storage" where
  "deployed totalSupply =
     snd (constructor Map.empty callerAddress True ''MASSA_SFT'' ''SFT'' totalSupply ''my.massa/'')"

definition minted :: storage where
  "minted = snd (mintEach (deployed 2) [(callerAddress, 2), (callerAddress, 2)])"

definition approved :: storage where
  "approved = snd (approveEach minted 1 [(callerAddress, ''2x''), (callerAddress, ''3x'')])"

definition shared :: storage where
  "shared =
     snd (approve (snd (transfer minted callerAddress ''2x'' 1 1)) callerAddress 1 ''2x'')"

text \<open>
  Ten mints against a supply of eleven. The first credits the largest u64 to 'x1' for
  token 1, under the key 'BALANCEx11'; that is also the key of ('x', 11). The eleventh
  token is then minted to 'y', again for the largest u64.
\<close>

definition aliased :: storage where
  "aliased = snd (mintEach (deployed 11)
     [(''x1'', 18446744073709551615), (''z'', 0), (''z'', 0), (''z'', 0), (''z'', 0),
      (''z'', 0), (''z'', 0), (''z'', 0), (''z'', 0), (''z'', 0)])"

definition overflowing :: storage where
  "overflowing = snd (mint aliased ''y'' 18446744073709551615)"

text \<open>
  Calls of several kinds on the store with two tokens minted: token 1 is approved for
  '2x' and later for '3x'; in between a mint fails (the supply is exhausted), token 2 is
  approved for '9y' and transferred, and '3x', who holds nothing, is refused an approval.
\<close>

definition mixed :: "call list" where
  "mixed =
     [Approve callerAddress 1 ''2x'', Mint ''z'' 1, Approve callerAddress 2 ''9y'',
      Transfer callerAddress ''2x'' 2 1, Approve ''3x'' 1 ''4x'', Approve callerAddress 1 ''3x'']"

section \<open>Facts about the encodings, the keys and the store\<close>

lemma le_nat_le_bytes: "le_nat (le_bytes k n) = n mod 256 ^ k"
proof (induction k arbitrary: n)
  case 0
  show ?case by simp
next
  case (Suc k)
  have "le_nat (le_bytes (Suc k) n) = n mod 256 + 256 * ((n div 256) mod 256 ^ k)"
    by (simp add: Suc.IH)
  also have "\<dots> = n mod (256 * 256 ^ k)"
    by (simp add: mod_mult2_eq)
  finally show ?case by simp
qed

lemma bytesToU64_u64ToBytes [simp]: "bytesToU64 (u64ToBytes v) = v"
proof -
  have "unat v < 2 ^ 64"
    using unsigned_less [of v] by simp
  then have "unat v mod 256 ^ 8 = unat v"
    by simp
  then show ?thesis
    by (simp add: bytesToU64_def u64ToBytes_def le_nat_le_bytes)
qed

text \<open>
  A balance key starts with 'B', an approval key with 'a' and the counter's with 'C', so
  none is another; two balance keys of the same token differ when the addresses do.
  Balance keys of different tokens can coincide: the address and the digits are
  concatenated with nothing between them.
\<close>

lemma getBalanceKey_neq_counterKey [simp]:
  "getBalanceKey a i \<noteq> counterKey" "counterKey \<noteq> getBalanceKey a i"
  by (simp_all add: getBalanceKey_def counterKey_def BALANCE_KEY_def stringToBytes_def)

lemma getBalanceKey_neq_totalSupplyKey [simp]:
  "getBalanceKey a i \<noteq> totalSupplyKey" "totalSupplyKey \<noteq> getBalanceKey a i"
  by (simp_all add: getBalanceKey_def totalSupplyKey_def BALANCE_KEY_def stringToBytes_def)

lemma getBalanceKey_neq_approvedKey [simp]:
  "getBalanceKey a i \<noteq> approvedKey t" "approvedKey t \<noteq> getBalanceKey a i"
  by (simp_all add: getBalanceKey_def approvedKey_def approvedTokenKey_def BALANCE_KEY_def
      stringToBytes_def)

lemma counterKey_neq_totalSupplyKey [simp]:
  "counterKey \<noteq> totalSupplyKey" "totalSupplyKey \<noteq> counterKey"
  by (simp_all add: counterKey_def totalSupplyKey_def stringToBytes_def)

lemma getBalanceKey_same_token [simp]:
  "(getBalanceKey a i = getBalanceKey b i) = (a = b)"
  by (simp add: getBalanceKey_def stringToBytes_def)

lemma balance'_same_key:
  "getBalanceKey a i = getBalanceKey b j \<Longrightarrow> balance' s a i = balance' s b j"
  by (simp add: balance'_def)

lemma balance'_Storage_set:
  "balance' (Storage_set s k v) a i =
     (if k = getBalanceKey a i then bytesToU64 v else balance' s a i)"
  by (simp add: balance'_def Let_def Storage_set_def Storage_has_def Storage_get_def)

lemma balance'_setBalance':
  "balance' (setBalance' s a i v) b j =
     (if getBalanceKey a i = getBalanceKey b j then v else balance' s b j)"
  by (simp add: setBalance'_def balance'_Storage_set)

lemma balance'_removeApprovals' [simp]:
  "balance' (removeApprovals' s t) a i = balance' s a i"
  by (simp add: removeApprovals'_def balance'_def Let_def Storage_del_def Storage_has_def
      Storage_get_def)

lemma balance'_Storage_del_approvedKey [simp]:
  "balance' (Storage_del s (approvedKey t)) a i = balance' s a i"
  using balance'_removeApprovals' [of s t a i] by (simp add: removeApprovals'_def)

lemma Storage_has_Storage_del [simp]: "\<not> Storage_has (Storage_del s k) k"
  by (simp add: Storage_del_def Storage_has_def)

lemma balance'_increment' [simp]:
  "balance' (increment' s) a i = balance' s a i"
  by (simp add: increment'_def balance'_Storage_set)

lemma currentSupply'_increment' [simp]:
  "currentSupply' (increment' s) = currentSupply' s + 1"
  by (simp add: currentSupply'_def increment'_def Storage_set_def Storage_get_def)

lemma currentSupply'_setBalance' [simp]:
  "currentSupply' (setBalance' s a i v) = currentSupply' s"
  by (simp add: currentSupply'_def setBalance'_def Storage_set_def Storage_get_def)

lemma has_approvedKey_setBalance' [simp]:
  "Storage_has (setBalance' s a i v) (approvedKey t) = Storage_has s (approvedKey t)"
  by (simp add: setBalance'_def Storage_set_def Storage_has_def)

lemma has_approvedKey_removeApprovals' [simp]:
  "\<not> Storage_has (removeApprovals' s t) (approvedKey t)"
  by (simp add: removeApprovals'_def Storage_del_def Storage_has_def)

lemma removeApprovals'_getBalanceKey [simp]:
  "removeApprovals' s t (getBalanceKey a i) = s (getBalanceKey a i)"
  by (simp add: removeApprovals'_def Storage_del_def)

lemma owns_iff_nonzero: "(1 \<le> w) = (w \<noteq> 0)" for w :: u64
  by (simp add: word_le_nat_alt Suc_le_eq unat_gt_0)

lemma unat_increment:
  fixes c limit :: u64
  assumes "c < limit"
  shows "unat (c + 1) = unat c + 1"
proof -
  have "c \<noteq> - 1"
    using assms by (metis word_order.extremum_strict)
  then have "1 + c \<noteq> 0"
    by (metis add.commute add_eq_0_iff)
  then show ?thesis
    using unatSuc [of c] by (simp add: add.commute)
qed

subsection \<open>The approval list as the client splits it\<close>

lemma approvedAddressArray_eq:
  "approvedAddressArray s t = split CHR '','' (Storage_get s (approvedKey t))"
  by (simp add: approvedAddressArray_def getApproved_def Let_def stringToBytes_def
      bytesToString_def)

lemma isApproved_eq:
  "isApproved s a t = (a \<in> set (approvedAddressArray s t))"
  by (simp add: isApproved_def approvedAddressArray_eq Let_def bytesToString_def)

lemma split_append_sep:
  "sep \<notin> set a \<Longrightarrow> split sep (a @ sep # rest) = a # split sep rest"
  by (induction a) auto

lemma split_no_sep: "sep \<notin> set a \<Longrightarrow> split sep a = [a]"
  by (induction a) auto

lemma split_join:
  "as \<noteq> [] \<Longrightarrow> \<forall>a\<in>set as. sep \<notin> set a \<Longrightarrow> split sep (join [sep] as) = as"
proof (induction as rule: induct_list012)
  case 1
  then show ?case by simp
next
  case (2 a)
  then show ?case by (simp add: split_no_sep)
next
  case (3 a b bs)
  then show ?case by (simp add: split_append_sep)
qed

lemma join_Cons: "join sep (a # as) = a @ concat (map ((@) sep) as)"
  by (induction as arbitrary: a) simp_all

text \<open>A successful \<^verbatim>\<open>approve\<close> leaves what \<^verbatim>\<open>_approve\<close> writes.\<close>

lemma approve_success:
  "approve s caller t g = (Inr u, s') \<Longrightarrow> s' = approve' s t g"
  by (auto simp: approve_def split: if_splits)

lemma approvedAddressArray_absent:
  "\<not> Storage_has s (approvedKey t) \<Longrightarrow> approvedAddressArray s t = [[]]"
  by (simp add: approvedAddressArray_eq Storage_has_def Storage_get_def)

lemma approvedAddressArray_joined:
  "gs \<noteq> [] \<Longrightarrow> \<forall>g\<in>set gs. CHR '','' \<notin> set g \<Longrightarrow> s (approvedKey t) = Some (join '','' gs)
     \<Longrightarrow> approvedAddressArray s t = gs"
  using split_join [of gs "CHR '',''"]
  by (simp add: approvedAddressArray_eq Storage_get_def)

subsection \<open>Token ids and approval keys\<close>

text \<open>
  Different token ids have different decimal digits, so each token has an approval key
  of its own, and no approval key is the key of another kind of entry.
\<close>

lemma digit_inject: "a < 10 \<Longrightarrow> b < 10 \<Longrightarrow> digit a = digit b \<Longrightarrow> a = b"
proof -
  assume "a < 10" "b < 10" "digit a = digit b"
  moreover have "distinct ''0123456789''"
    by simp
  ultimately show "a = b"
    by (simp add: digit_def nth_eq_iff_index_eq)
qed

lemma decimal_length: "length (decimal n) = 1 \<longleftrightarrow> n < 10"
proof (cases "n < 10")
  case True
  then show ?thesis by (simp add: decimal.simps)
next
  case False
  have "decimal (n div 10) \<noteq> []"
    by (subst decimal.simps) simp
  then have "length (decimal (n div 10)) \<noteq> 0"
    by simp
  with False show ?thesis
    by (subst decimal.simps) simp
qed

lemma decimal_inject: "decimal n = decimal m \<Longrightarrow> n = m"
proof (induction n arbitrary: m rule: decimal.induct)
  case (1 n)
  have len: "n < 10 \<longleftrightarrow> m < 10"
    using "1.prems" decimal_length [of n] decimal_length [of m] by simp
  show ?case
  proof (cases "n < 10")
    case True
    with len have "m < 10" by simp
    with True "1.prems" show ?thesis
      by (simp add: decimal.simps [of n] decimal.simps [of m] digit_inject)
  next
    case False
    with len have m: "\<not> m < 10" by simp
    from False m "1.prems"
    have eq: "decimal (n div 10) = decimal (m div 10)" "digit (n mod 10) = digit (m mod 10)"
      by (simp_all add: decimal.simps [of n] decimal.simps [of m])
    have "n div 10 = m div 10"
      using "1.IH" [OF False eq(1)] .
    moreover have "n mod 10 = m mod 10"
      using eq(2) by (simp add: digit_inject)
    ultimately show ?thesis
      by (metis div_mult_mod_eq)
  qed
qed

lemma toString_inject [simp]: "(toString a = toString b) = (a = b)"
  using decimal_inject [of "unat a" "unat b"] by (auto simp: toString_def word_unat_eq_iff)

lemma approvedKey_inject [simp]: "(approvedKey a = approvedKey b) = (a = b)"
  by (simp add: approvedKey_def stringToBytes_def)

lemma approvedKey_neq_others [simp]:
  "approvedKey t \<noteq> counterKey" "approvedKey t \<noteq> totalSupplyKey"
  "approvedKey t \<noteq> stringToBytes nameKey" "approvedKey t \<noteq> stringToBytes symbolKey"
  "approvedKey t \<noteq> stringToBytes baseURIKey" "approvedKey t \<noteq> stringToBytes ownerKey"
  by (simp_all add: approvedKey_def approvedTokenKey_def counterKey_def totalSupplyKey_def
      nameKey_def symbolKey_def baseURIKey_def ownerKey_def stringToBytes_def)

subsection \<open>A token's approval entry along a run of calls\<close>

lemma extend_append: "extend e (xs @ ys) = extend (extend e xs) ys"
  by (induction xs arbitrary: e) simp_all

lemma extend_Some: "extend (Some v) gs = Some (v @ concat (map ((@) '','') gs))"
  by (induction gs arbitrary: v) simp_all

lemma extend_None: "extend None gs = (if gs = [] then None else Some (join '','' gs))"
  by (cases gs) (simp_all add: extend_Some join_Cons)

text \<open>
  A call that is no transfer of the token changes the token's approval entry only when it
  is a successful \<^verbatim>\<open>approve\<close> on that token, and then appends the grantee;
  so does what the host keeps of the call, and so does a run of such calls.
\<close>

lemma invoke_entry:
  assumes "\<not> transfersToken t c"
  shows "snd (invoke s c) (approvedKey t) = extend (s (approvedKey t)) (approvedBy s t c)"
proof (cases c)
  case (Constructor caller acc name symbol total uri)
  then show ?thesis
    by (simp add: constructor_def Let_def Storage_set_def)
next
  case (SetURI caller uri)
  then show ?thesis
    by (simp add: setURI_def Storage_set_def)
next
  case (Mint a m)
  then show ?thesis
    by (simp add: mint_def Let_def setBalance'_def increment'_def Storage_set_def)
next
  case (Transfer caller dest tok m)
  with assms have "tok \<noteq> t" by simp
  then show ?thesis
    by (simp add: Transfer transfer_def transfer'_def Let_def setBalance'_def removeApprovals'_def
        Storage_set_def Storage_del_def)
next
  case (TransferFrom src dest tok)
  with assms have "tok \<noteq> t" by simp
  then show ?thesis
    by (simp add: TransferFrom transferFrom_def removeApprovals'_def Storage_del_def)
next
  case (Approve caller tok g)
  show ?thesis
  proof (cases "fst (approve s caller tok g) = Inr ()")
    case True
    then have s': "snd (approve s caller tok g) = approve' s tok g"
      using approve_success [of s caller tok g "()" "snd (approve s caller tok g)"]
      by (simp add: prod_eq_iff)
    show ?thesis
      using True
      by (auto simp: Approve s' approve'_def Let_def Storage_set_def Storage_has_def
          Storage_get_def stringToBytes_def bytesToString_def split: option.splits)
  next
    case False
    then have "snd (approve s caller tok g) = s"
      by (auto simp: approve_def split: if_splits)
    with False show ?thesis
      by (simp add: Approve)
  qed
qed

lemma approvedBy_failed: "fst (invoke s c) \<noteq> Inr () \<Longrightarrow> approvedBy s t c = []"
  by (cases c) simp_all

lemma commit_entry:
  assumes "\<not> transfersToken t c"
  shows "commit discard s (invoke s c) (approvedKey t)
           = extend (s (approvedKey t)) (approvedBy s t c)"
proof (cases "fst (invoke s c)")
  case (Inl e)
  then have "approvedBy s t c = []"
    using approvedBy_failed [of s c t] by simp
  then show ?thesis
    using Inl invoke_entry [OF assms, of s] by (simp add: commit_def)
next
  case (Inr u)
  then show ?thesis
    using invoke_entry [OF assms, of s] by (simp add: commit_def)
qed

lemma run_entry:
  "\<forall>c\<in>set cs. \<not> transfersToken t c \<Longrightarrow>
     run discard s cs (approvedKey t) = extend (s (approvedKey t)) (granted discard s t cs)"
proof (induction cs arbitrary: s)
  case Nil
  show ?case by simp
next
  case (Cons c cs)
  then show ?case
    by (simp add: commit_entry extend_append)
qed

subsection \<open>The example stores, evaluated\<close>

lemmas keys = getBalanceKey_def approvedKey_def counterKey_def totalSupplyKey_def nameKey_def
  symbolKey_def baseURIKey_def ownerKey_def BALANCE_KEY_def approvedTokenKey_def
  stringToBytes_def bytesToString_def toString_def decimal.simps digit_def

lemmas calls = constructor_def mint_def currentSupply'_def increment'_def balance'_def
  setBalance'_def approve_def approve'_def assertOwnsSFT_def isApproved_def transfer_def
  transfer'_def removeApprovals'_def getApproved_def approvedAddressArray_def
  Storage_get_def Storage_set_def Storage_has_def Storage_del_def initCounter_def Let_def

lemma callerAddress_neq [simp]:
  "callerAddress \<noteq> ''2x''" "''2x'' \<noteq> callerAddress"
  "callerAddress \<noteq> ''3x''" "''3x'' \<noteq> callerAddress"
  "callerAddress \<noteq> []"
  by (simp_all add: callerAddress_def)

lemma deployed_facts:
  "currentSupply' (deployed 2) = 0"
  "bytesToU64 (Storage_get (deployed 2) totalSupplyKey) = 2"
  "balance' (deployed 2) callerAddress 1 = 0"
  "\<not> Storage_has (deployed 2) (approvedKey 7)"
  by (simp_all add: deployed_def callerAddress_def calls keys)

lemma minted_facts:
  "currentSupply' minted = 2"
  "bytesToU64 (Storage_get minted totalSupplyKey) = 2"
  "balance' minted callerAddress 1 = 2"
  "balance' minted callerAddress 2 = 2"
  "balance' minted ''2x'' 2 = 0"
  "balance' minted ''3x'' 1 = 0"
  "approvedAddressArray minted 1 = [[]]"
  by (simp_all add: minted_def deployed_def callerAddress_def calls keys)

lemma minted_no_approvals: "\<not> Storage_has minted (approvedKey 1)"
  by (simp add: minted_def deployed_def callerAddress_def calls keys)

lemma approved_run:
  "fst (approveEach minted 1 [(callerAddress, ''2x''), (callerAddress, ''3x'')]) = Inr ()"
  by (simp add: minted_def deployed_def callerAddress_def calls keys)

lemma approved_facts:
  "Storage_has approved (approvedKey 1)"
  "approved (approvedKey 1) = Some ''2x,3x''"
  "approvedAddressArray approved 1 = [''2x'', ''3x'']"
  "balance' approved callerAddress 1 = 2"
  by (simp_all add: approved_def minted_def deployed_def callerAddress_def calls keys)

lemma shared_facts:
  "balance' shared ''2x'' 1 = 1"
  "approvedAddressArray shared 1 = [''2x'']"
  by (simp_all add: shared_def minted_def deployed_def callerAddress_def calls keys)

lemma aliased_run:
  "fst (mintEach (deployed 11)
     [(''x1'', 18446744073709551615), (''z'', 0), (''z'', 0), (''z'', 0), (''z'', 0),
      (''z'', 0), (''z'', 0), (''z'', 0), (''z'', 0), (''z'', 0)]) = Inr ()"
  by (simp add: deployed_def callerAddress_def calls keys)

lemma aliased_facts:
  "currentSupply' aliased = 10"
  "bytesToU64 (Storage_get aliased totalSupplyKey) = 11"
  "balance' aliased ''x'' 11 = 18446744073709551615"
  "balance' aliased ''y'' 11 = 0"
  by (simp_all add: aliased_def deployed_def callerAddress_def calls keys)

lemmas invokes = setURI_def onlyOwner'_def transferFrom_def assertOnlyApproved_def commit_def

lemma mixed_granted:
  "granted True minted 1 mixed = [''2x'', ''3x'']"
  "granted False minted 1 mixed = [''2x'', ''3x'']"
  by (simp_all add: mixed_def minted_def deployed_def callerAddress_def calls invokes keys)

lemma mixed_no_transfer: "\<forall>c\<in>set mixed. \<not> transfersToken 1 c"
  by (simp add: mixed_def)

section \<open>The claims\<close>

subsection \<open>Transfers and balances\<close>

text \<open>
  Claim C1, as the code has it. A transfer between two different addresses succeeds when
  the sender holds the amount, and then the two balances of the token add up to what
  they did before, provided the recipient's balance and the amount together fit in a u64.
  A transfer that fails for lack of balance leaves both balances as they were.
\<close>

theorem transfer_conserves_without_overflow:
  "(from \<noteq> to \<longrightarrow> amount \<le> balance' s from tokenId \<longrightarrow>
      unat (balance' s to tokenId) + unat amount < 2 ^ 64 \<longrightarrow>
      fst (transfer s from to tokenId amount) = Inr () \<and>
      unat (balance' (snd (transfer s from to tokenId amount)) from tokenId)
        + unat (balance' (snd (transfer s from to tokenId amount)) to tokenId)
        = unat (balance' s from tokenId) + unat (balance' s to tokenId)) \<and>
   (balance' s from tokenId < amount \<longrightarrow>
      fst (transfer s from to tokenId amount) = Inl InsufficientBalance \<and>
      balance' (snd (transfer s from to tokenId amount)) from tokenId = balance' s from tokenId \<and>
      balance' (snd (transfer s from to tokenId amount)) to tokenId = balance' s to tokenId)"
proof (intro conjI impI)
  assume ne: "from \<noteq> to" and ge: "amount \<le> balance' s from tokenId"
    and fits: "unat (balance' s to tokenId) + unat amount < 2 ^ 64"
  show "fst (transfer s from to tokenId amount) = Inr ()"
    using ge by (simp add: transfer_def transfer'_def Let_def)
  have debit: "unat (balance' s from tokenId - amount)
      = unat (balance' s from tokenId) - unat amount"
    using ge by (simp add: unat_sub)
  have credit: "unat (balance' s to tokenId + amount)
      = unat (balance' s to tokenId) + unat amount"
    using fits by (simp add: unat_add_lem [THEN iffD1])
  have le: "unat amount \<le> unat (balance' s from tokenId)"
    using ge by (simp add: word_le_nat_alt)
  show "unat (balance' (snd (transfer s from to tokenId amount)) from tokenId)
        + unat (balance' (snd (transfer s from to tokenId amount)) to tokenId)
        = unat (balance' s from tokenId) + unat (balance' s to tokenId)"
    using ne ge le
    by (simp add: transfer_def transfer'_def Let_def balance'_setBalance' debit credit)
next
  assume lt: "balance' s from tokenId < amount"
  then have "\<not> amount \<le> balance' (removeApprovals' s tokenId) from tokenId"
    by simp
  then have r: "transfer s from to tokenId amount =
      (Inl InsufficientBalance, removeApprovals' s tokenId)"
    by (simp add: transfer_def transfer'_def Let_def)
  show "fst (transfer s from to tokenId amount) = Inl InsufficientBalance"
    by (simp add: r)
  show "balance' (snd (transfer s from to tokenId amount)) from tokenId = balance' s from tokenId"
    by (simp add: r)
  show "balance' (snd (transfer s from to tokenId amount)) to tokenId = balance' s to tokenId"
    by (simp add: r)
qed

text \<open>
  The test 'transfer call': the caller holds 2 of token 2 and sends 1 to '2x'; sending 3
  fails.
\<close>

theorem transfer_conserves_without_overflow_witness:
  "fst (transfer minted callerAddress ''2x'' 2 1) = Inr () \<and>
   unat (balance' (snd (transfer minted callerAddress ''2x'' 2 1)) callerAddress 2)
     + unat (balance' (snd (transfer minted callerAddress ''2x'' 2 1)) ''2x'' 2) = 2 \<and>
   fst (transfer minted callerAddress ''2x'' 2 3) = Inl InsufficientBalance \<and>
   balance' (snd (transfer minted callerAddress ''2x'' 2 3)) callerAddress 2 = 2 \<and>
   balance' (snd (transfer minted callerAddress ''2x'' 2 3)) ''2x'' 2 = 0"
  using
    transfer_conserves_without_overflow
      [where ?from = callerAddress and to = "''2x''" and amount = 1 and s = minted and tokenId = 2]
    transfer_conserves_without_overflow
      [where ?from = callerAddress and to = "''2x''" and amount = 3 and s = minted and tokenId = 2]
  by (simp add: minted_facts)

text \<open>
  Without the proviso the sum is not kept. After the eleven mints above, 'y' and 'x' each
  read the largest u64 for token 11; 'y' sends 1 to 'x', the credit wraps around to 0,
  and the two balances no longer add up to what they did.
\<close>

theorem transfer_sum_counterexample:
  "fst (mint aliased ''y'' 18446744073709551615) = Inr () \<and>
   ''y'' \<noteq> ''x'' \<and>
   fst (transfer overflowing ''y'' ''x'' 11 1) = Inr () \<and>
   unat (balance' overflowing ''y'' 11) + unat (balance' overflowing ''x'' 11)
     = 36893488147419103230 \<and>
   unat (balance' (snd (transfer overflowing ''y'' ''x'' 11 1)) ''y'' 11)
     + unat (balance' (snd (transfer overflowing ''y'' ''x'' 11 1)) ''x'' 11)
     = 18446744073709551614"
  by (simp add: overflowing_def mint_def transfer_def transfer'_def Let_def balance'_setBalance'
      aliased_facts)

subsection \<open>Mint and the supply counter\<close>

text \<open>
  Claim C2. When the counter has reached the maximum supply, \<^verbatim>\<open>mint\<close> fails with
  the supply error and the store is the one it was given. Otherwise it succeeds, the
  counter goes up by exactly one, the recipient's balance for the token numbered by the
  new counter value is credited with the amount, and no entry but the counter and that
  balance changes.
\<close>

theorem mint_supply_check:
  "(bytesToU64 (Storage_get s totalSupplyKey) \<le> currentSupply' s \<longrightarrow>
      mint s mintAddress amount = (Inl SupplyExceeded, s)) \<and>
   (currentSupply' s < bytesToU64 (Storage_get s totalSupplyKey) \<longrightarrow>
      fst (mint s mintAddress amount) = Inr () \<and>
      unat (currentSupply' (snd (mint s mintAddress amount))) = unat (currentSupply' s) + 1 \<and>
      balance' (snd (mint s mintAddress amount)) mintAddress
          (currentSupply' (snd (mint s mintAddress amount)))
        = balance' s mintAddress (currentSupply' s + 1) + amount \<and>
      (\<forall>key. key \<noteq> counterKey \<and>
             key \<noteq> getBalanceKey mintAddress (currentSupply' (snd (mint s mintAddress amount)))
         \<longrightarrow> snd (mint s mintAddress amount) key = s key))"
proof (intro conjI impI allI)
  assume "bytesToU64 (Storage_get s totalSupplyKey) \<le> currentSupply' s"
  then show "mint s mintAddress amount = (Inl SupplyExceeded, s)"
    by (simp add: mint_def not_less)
next
  assume lt: "currentSupply' s < bytesToU64 (Storage_get s totalSupplyKey)"
  then have r: "mint s mintAddress amount =
      (Inr (), setBalance' (increment' s) mintAddress (currentSupply' s + 1)
                 (balance' s mintAddress (currentSupply' s + 1) + amount))"
    by (simp add: mint_def Let_def)
  have counter: "currentSupply' (snd (mint s mintAddress amount)) = currentSupply' s + 1"
    by (simp add: r)
  show "fst (mint s mintAddress amount) = Inr ()"
    by (simp add: r)
  show "unat (currentSupply' (snd (mint s mintAddress amount))) = unat (currentSupply' s) + 1"
    using unat_increment [OF lt] by (simp add: counter)
  show "balance' (snd (mint s mintAddress amount)) mintAddress
          (currentSupply' (snd (mint s mintAddress amount)))
        = balance' s mintAddress (currentSupply' s + 1) + amount"
    by (simp add: r balance'_setBalance')
  fix key
  assume "key \<noteq> counterKey \<and>
     key \<noteq> getBalanceKey mintAddress (currentSupply' (snd (mint s mintAddress amount)))"
  then have "key \<noteq> counterKey" "key \<noteq> getBalanceKey mintAddress (currentSupply' s + 1)"
    by (simp_all add: counter)
  then show "snd (mint s mintAddress amount) key = s key"
    by (simp add: r setBalance'_def increment'_def Let_def Storage_set_def)
qed

text \<open>
  With the supply of two exhausted a third mint fails; on the freshly deployed contract
  the first mint makes token 1.
\<close>

theorem mint_supply_check_witness:
  "mint minted callerAddress 2 = (Inl SupplyExceeded, minted) \<and>
   fst (mint (deployed 2) callerAddress 2) = Inr () \<and>
   unat (currentSupply' (snd (mint (deployed 2) callerAddress 2))) = 1 \<and>
   balance' (snd (mint (deployed 2) callerAddress 2)) callerAddress
     (currentSupply' (snd (mint (deployed 2) callerAddress 2))) = 2"
  using mint_supply_check [of minted callerAddress 2]
    mint_supply_check [of "deployed 2" callerAddress 2]
  by (simp add: minted_facts deployed_facts)

subsection \<open>Approvals\<close>

text \<open>
  Claim C3, as the code has it. \<^verbatim>\<open>approve\<close> fails with NotOwner when the caller's
  balance of the token is zero; otherwise with SelfApproval when the grantee is the
  caller; otherwise with AlreadyApproved when the caller (not the grantee) is in the
  token's approval list; and succeeds in every other case. A failing call leaves the
  store as it was, a successful one stores what \<^verbatim>\<open>_approve\<close> writes.
\<close>

theorem approve_outcome:
  "fst (approve s caller tokenId grantee) =
     (if balance' s caller tokenId = 0 then Inl NotOwner
      else if grantee = caller then Inl SelfApproval
      else if caller \<in> set (approvedAddressArray s tokenId) then Inl AlreadyApproved
      else Inr ()) \<and>
   (if fst (approve s caller tokenId grantee) = Inr ()
    then snd (approve s caller tokenId grantee) = approve' s tokenId grantee
    else snd (approve s caller tokenId grantee) = s)"
  by (auto simp: approve_def assertOwnsSFT_def isApproved_eq owns_iff_nonzero)

text \<open>
  One call for each outcome: the caller approves '2x'; '3x', who holds nothing, is
  refused; the caller cannot approve itself; and '2x', who holds the token and is
  already approved, cannot approve '3x'.
\<close>

theorem approve_outcome_witness:
  "fst (approve minted callerAddress 1 ''2x'') = Inr () \<and>
   fst (approve minted ''3x'' 1 ''2x'') = Inl NotOwner \<and>
   fst (approve minted callerAddress 1 callerAddress) = Inl SelfApproval \<and>
   fst (approve shared ''2x'' 1 ''3x'') = Inl AlreadyApproved"
  using approve_outcome [of minted callerAddress 1 "''2x''"]
    approve_outcome [of minted "''3x''" 1 "''2x''"]
    approve_outcome [of minted callerAddress 1 callerAddress]
    approve_outcome [of shared "''2x''" 1 "''3x''"]
  by (simp add: minted_facts shared_facts)

text \<open>
  The grantee is not looked up: with '2x' already in the list of token 1, approving '2x'
  again succeeds and lists it twice.
\<close>

theorem approve_twice_counterexample:
  "''2x'' \<in> set (approvedAddressArray (snd (approve minted callerAddress 1 ''2x'')) 1) \<and>
   fst (approve (snd (approve minted callerAddress 1 ''2x'')) callerAddress 1 ''2x'') = Inr () \<and>
   approvedAddressArray
     (snd (approve (snd (approve minted callerAddress 1 ''2x'')) callerAddress 1 ''2x'')) 1
     = [''2x'', ''2x'']"
  by (simp add: minted_def deployed_def callerAddress_def calls keys)

text \<open>
  Claim C4. \<^verbatim>\<open>getApproved\<close> returns for every token id and leaves the store alone:
  the stored list when the token has an approval entry, the empty value when it has none.
\<close>

theorem getApproved_never_fails:
  "(\<exists>v. getApproved s tokenId = (Inr v, s)) \<and>
   (\<not> Storage_has s (approvedKey tokenId) \<longrightarrow> getApproved s tokenId = (Inr [], s)) \<and>
   (\<forall>v. s (approvedKey tokenId) = Some v \<longrightarrow> getApproved s tokenId = (Inr v, s))"
  by (simp add: getApproved_def Let_def Storage_get_def Storage_has_def stringToBytes_def
      bytesToString_def)

text \<open>Token 7 was never minted and has no entry; token 1 has two approvals.\<close>

theorem getApproved_never_fails_witness:
  "getApproved (deployed 2) 7 = (Inr [], deployed 2) \<and>
   getApproved approved 1 = (Inr ''2x,3x'', approved)"
  using getApproved_never_fails [of "deployed 2" 7] getApproved_never_fails [of approved 1]
  by (simp add: deployed_facts approved_facts)

text \<open>
  Claim C5, as the code has it. \<^verbatim>\<open>transferFrom\<close> fails with NotApproved exactly
  when the \<^verbatim>\<open>from\<close> address is not one of the pieces of the token's stored
  approval value split at the commas. For a token with at least one approval, none of
  them holding a comma, that is exactly when \<^verbatim>\<open>from\<close> is not an approved
  address; for a token without an approval entry the only piece is the empty string, so
  the call fails exactly when \<^verbatim>\<open>from\<close> is not empty. A failing call changes
  nothing. When the call succeeds the token's approval entry is gone and every balance
  entry, and so every balance, is what it was.
\<close>

theorem transferFrom_checks_and_clears:
  "(fst (transferFrom s from to tokenId) = Inl NotApproved) =
     (from \<notin> set (approvedAddressArray s tokenId)) \<and>
   (\<not> Storage_has s (approvedKey tokenId) \<longrightarrow>
      (fst (transferFrom s from to tokenId) = Inl NotApproved) = (from \<noteq> [])) \<and>
   (\<forall>gs. gs \<noteq> [] \<and> (\<forall>g\<in>set gs. CHR '','' \<notin> set g) \<and>
         s (approvedKey tokenId) = Some (join '','' gs) \<longrightarrow>
      (fst (transferFrom s from to tokenId) = Inl NotApproved) = (from \<notin> set gs)) \<and>
   (from \<notin> set (approvedAddressArray s tokenId) \<longrightarrow> snd (transferFrom s from to tokenId) = s) \<and>
   (from \<in> set (approvedAddressArray s tokenId) \<longrightarrow>
      fst (transferFrom s from to tokenId) = Inr () \<and>
      \<not> Storage_has (snd (transferFrom s from to tokenId)) (approvedKey tokenId) \<and>
      (\<forall>owner ident.
         snd (transferFrom s from to tokenId) (getBalanceKey owner ident)
           = s (getBalanceKey owner ident)) \<and>
      (\<forall>owner ident.
         balance' (snd (transferFrom s from to tokenId)) owner ident = balance' s owner ident))"
proof -
  have checks: "(fst (transferFrom s from to tokenId) = Inl NotApproved) =
      (from \<notin> set (approvedAddressArray s tokenId))"
    by (simp add: transferFrom_def assertOnlyApproved_def isApproved_eq)
  have absent: "\<not> Storage_has s (approvedKey tokenId) \<longrightarrow>
      (fst (transferFrom s from to tokenId) = Inl NotApproved) = (from \<noteq> [])"
    by (auto simp: checks approvedAddressArray_absent)
  have listed: "\<forall>gs. gs \<noteq> [] \<and> (\<forall>g\<in>set gs. CHR '','' \<notin> set g) \<and>
         s (approvedKey tokenId) = Some (join '','' gs) \<longrightarrow>
      (fst (transferFrom s from to tokenId) = Inl NotApproved) = (from \<notin> set gs)"
    by (auto simp: checks approvedAddressArray_joined)
  have effect: "(from \<notin> set (approvedAddressArray s tokenId) \<longrightarrow>
        snd (transferFrom s from to tokenId) = s) \<and>
   (from \<in> set (approvedAddressArray s tokenId) \<longrightarrow>
      fst (transferFrom s from to tokenId) = Inr () \<and>
      \<not> Storage_has (snd (transferFrom s from to tokenId)) (approvedKey tokenId) \<and>
      (\<forall>owner ident.
         snd (transferFrom s from to tokenId) (getBalanceKey owner ident)
           = s (getBalanceKey owner ident)) \<and>
      (\<forall>owner ident.
         balance' (snd (transferFrom s from to tokenId)) owner ident = balance' s owner ident))"
    by (simp add: transferFrom_def assertOnlyApproved_def isApproved_eq)
  from checks absent listed effect show ?thesis
    by blast
qed

text \<open>
  The test 'transferFrom': '2x' is approved for token 1, so the call passes and the list
  is cleared; before any approval the same call is refused, and so is '4x', who is not
  among the approved '2x' and '3x'.
\<close>

theorem transferFrom_checks_and_clears_witness:
  "fst (transferFrom approved ''2x'' ''3x'' 1) = Inr () \<and>
   \<not> Storage_has (snd (transferFrom approved ''2x'' ''3x'' 1)) (approvedKey 1) \<and>
   balance' (snd (transferFrom approved ''2x'' ''3x'' 1)) callerAddress 1 = 2 \<and>
   transferFrom minted ''2x'' ''3x'' 1 = (Inl NotApproved, minted) \<and>
   fst (transferFrom approved ''4x'' ''3x'' 1) = Inl NotApproved"
  using transferFrom_checks_and_clears [of approved "''2x''" "''3x''" 1]
    transferFrom_checks_and_clears [of minted "''2x''" "''3x''" 1]
    transferFrom_checks_and_clears [of approved "''4x''" "''3x''" 1,
      THEN conjunct2, THEN conjunct2, THEN conjunct1, THEN spec, of "[''2x'', ''3x'']"]
  by (simp add: approved_facts minted_facts minted_no_approvals prod_eq_iff)

text \<open>
  Token 1 has no approval entry and \<^verbatim>\<open>getApproved\<close> returns the empty value
  for it, yet \<^verbatim>\<open>transferFrom\<close> with the empty string as \<^verbatim>\<open>from\<close> passes
  the check.
\<close>

theorem transferFrom_empty_address_counterexample:
  "\<not> Storage_has minted (approvedKey 1) \<and>
   getApproved minted 1 = (Inr [], minted) \<and>
   fst (transferFrom minted [] ''z'' 1) = Inr ()"
  using minted_no_approvals
  by (simp add: transferFrom_def assertOnlyApproved_def isApproved_eq minted_facts
      getApproved_def Let_def Storage_get_def Storage_has_def stringToBytes_def bytesToString_def)

text \<open>
  Claim C6. \<^verbatim>\<open>transfer\<close> removes the token's approval entry whatever the outcome.
  When the caller's balance is below the amount the call fails with InsufficientBalance,
  and the store it leaves is the one it was given less that approval entry: no balance
  entry has changed.
\<close>

theorem transfer_insufficient_clears_approvals:
  "\<not> Storage_has (snd (transfer s caller toAddress tokenId amount)) (approvedKey tokenId) \<and>
   (balance' s caller tokenId < amount \<longrightarrow>
      transfer s caller toAddress tokenId amount =
        (Inl InsufficientBalance, Storage_del s (approvedKey tokenId)) \<and>
      (\<forall>owner ident.
         snd (transfer s caller toAddress tokenId amount) (getBalanceKey owner ident)
           = s (getBalanceKey owner ident)) \<and>
      (\<forall>owner ident.
         balance' (snd (transfer s caller toAddress tokenId amount)) owner ident
           = balance' s owner ident))"
proof (intro conjI impI)
  show "\<not> Storage_has (snd (transfer s caller toAddress tokenId amount)) (approvedKey tokenId)"
    by (simp add: transfer_def transfer'_def Let_def)
next
  assume "balance' s caller tokenId < amount"
  then have "\<not> amount \<le> balance' (removeApprovals' s tokenId) caller tokenId"
    by simp
  then have r: "transfer s caller toAddress tokenId amount =
      (Inl InsufficientBalance, removeApprovals' s tokenId)"
    by (simp add: transfer_def transfer'_def Let_def)
  show "transfer s caller toAddress tokenId amount =
      (Inl InsufficientBalance, Storage_del s (approvedKey tokenId))"
    by (simp add: r removeApprovals'_def)
  show "\<forall>owner ident.
      snd (transfer s caller toAddress tokenId amount) (getBalanceKey owner ident)
        = s (getBalanceKey owner ident)"
    by (simp add: r)
  show "\<forall>owner ident.
      balance' (snd (transfer s caller toAddress tokenId amount)) owner ident
        = balance' s owner ident"
    by (simp add: r)
qed

text \<open>
  The caller holds 2 of token 1, approved for '2x' and '3x', and tries to send 3: the
  call fails, the approvals are gone, the balance is still 2.
\<close>

theorem transfer_insufficient_clears_approvals_witness:
  "Storage_has approved (approvedKey 1) \<and>
   fst (transfer approved callerAddress ''2x'' 1 3) = Inl InsufficientBalance \<and>
   \<not> Storage_has (snd (transfer approved callerAddress ''2x'' 1 3)) (approvedKey 1) \<and>
   balance' (snd (transfer approved callerAddress ''2x'' 1 3)) callerAddress 1 = 2"
  using transfer_insufficient_clears_approvals [of approved callerAddress "''2x''" 1 3]
  by (simp add: approved_facts)

subsection \<open>Overflow\<close>

text \<open>
  Claim C7, as the code has it. No credit fails for overflow: a mint below the supply
  cap and a transfer the sender can afford both succeed, and the recipient's new balance
  is the balance it has when the credit is made plus the amount, modulo \<open>2 ^ 64\<close>, so
  it wraps around when the sum passes the largest u64. The balance at the credit is the
  recipient's old balance in a mint and in a transfer to another address, and the old
  balance less the amount in a transfer to the sender itself.
\<close>

theorem credit_wraps_around:
  "(currentSupply' s < bytesToU64 (Storage_get s totalSupplyKey) \<longrightarrow>
      fst (mint s mintAddress amount) = Inr () \<and>
      unat (balance' (snd (mint s mintAddress amount)) mintAddress (currentSupply' s + 1))
        = (unat (balance' s mintAddress (currentSupply' s + 1)) + unat amount) mod 2 ^ 64) \<and>
   (amount \<le> balance' s from tokenId \<longrightarrow>
      fst (transfer s from to tokenId amount) = Inr () \<and>
      unat (balance' (snd (transfer s from to tokenId amount)) to tokenId)
        = (unat (if to = from then balance' s from tokenId - amount else balance' s to tokenId)
             + unat amount) mod 2 ^ 64)"
proof -
  have wrap: "unat (b + amount) = (unat b + unat amount) mod 2 ^ 64" for b :: u64
    by (simp add: unat_word_ariths)
  show ?thesis
    by (auto simp: mint_def transfer_def transfer'_def Let_def balance'_setBalance' wrap)
qed

text \<open>
  The first mint of the tests credits 2 to nothing; a transfer credits 2 to '2x'; a
  transfer of 1 to the sender itself credits the 1 it has just taken.
\<close>

theorem credit_wraps_around_witness:
  "fst (mint (deployed 2) callerAddress 2) = Inr () \<and>
   unat (balance' (snd (mint (deployed 2) callerAddress 2)) callerAddress 1) = 2 \<and>
   fst (transfer minted callerAddress ''2x'' 2 2) = Inr () \<and>
   unat (balance' (snd (transfer minted callerAddress ''2x'' 2 2)) ''2x'' 2) = 2 \<and>
   fst (transfer minted callerAddress callerAddress 2 1) = Inr () \<and>
   unat (balance' (snd (transfer minted callerAddress callerAddress 2 1)) callerAddress 2) = 2"
  using
    credit_wraps_around
      [where s = "deployed 2" and mintAddress = callerAddress and amount = 2
         and ?from = callerAddress and to = callerAddress and tokenId = 2]
    credit_wraps_around
      [where s = minted and mintAddress = callerAddress and amount = 2
         and ?from = callerAddress and to = "''2x''" and tokenId = 2]
    credit_wraps_around
      [where s = minted and mintAddress = callerAddress and amount = 1
         and ?from = callerAddress and to = callerAddress and tokenId = 2]
  by (simp add: deployed_facts minted_facts)

text \<open>
  After the ten mints above 'x' reads the largest u64 for token 11. The eleventh mint
  credits 1 more to 'x' for that token: it does not fail, and the balance is 0.
\<close>

theorem mint_wraps_counterexample:
  "fst (mint aliased ''x'' 1) = Inr () \<and>
   unat (balance' aliased ''x'' (currentSupply' (snd (mint aliased ''x'' 1)))) + unat (1 :: u64)
     = 18446744073709551616 \<and>
   balance' (snd (mint aliased ''x'' 1)) ''x'' (currentSupply' (snd (mint aliased ''x'' 1))) = 0"
  by (simp add: mint_def Let_def balance'_setBalance' aliased_facts)

subsection \<open>The approval list in insertion order\<close>

text \<open>
  Claim C8. Take a token without an approval entry and any run of calls of the writing
  entry points, by any callers and on any tokens, in which no call is a
  \<^verbatim>\<open>transfer\<close> or \<^verbatim>\<open>transferFrom\<close> on that token. Afterwards
  \<^verbatim>\<open>getApproved\<close> returns the grantees of the successful \<^verbatim>\<open>approve\<close>
  calls on the token, and only those, joined by commas in the order of the calls; split
  at the commas this is the list of those grantees, as long as there is at least one and
  no address holds a comma. This holds whether the host discards or keeps the writes of
  the calls that abort.
\<close>

theorem getApproved_insertion_order:
  assumes "\<not> Storage_has s (approvedKey tokenId)"
    and "\<forall>c\<in>set cs. \<not> transfersToken tokenId c"
  shows "getApproved (run discard s cs) tokenId
           = (Inr (stringToBytes (join '','' (granted discard s tokenId cs))), run discard s cs) \<and>
         (granted discard s tokenId cs \<noteq> [] \<and>
          (\<forall>g\<in>set (granted discard s tokenId cs). CHR '','' \<notin> set g) \<longrightarrow>
            approvedAddressArray (run discard s cs) tokenId = granted discard s tokenId cs)"
proof -
  have "run discard s cs (approvedKey tokenId) = extend None (granted discard s tokenId cs)"
    using run_entry [OF assms(2), of discard s] assms(1) by (simp add: Storage_has_def)
  then have entry: "Storage_get (run discard s cs) (approvedKey tokenId)
      = join '','' (granted discard s tokenId cs)"
    by (simp add: extend_None Storage_get_def)
  show ?thesis
    using split_join [of "granted discard s tokenId cs" "CHR '',''"]
    by (simp add: getApproved_def Let_def approvedAddressArray_eq entry stringToBytes_def
        bytesToString_def)
qed

text \<open>
  The mixed run above: '2x', then '3x', and nothing of the approval of token 2.
\<close>

theorem getApproved_insertion_order_witness:
  "fst (getApproved (run True minted mixed) 1) = Inr ''2x,3x'' \<and>
   approvedAddressArray (run True minted mixed) 1 = [''2x'', ''3x''] \<and>
   fst (getApproved (run False minted mixed) 1) = Inr ''2x,3x''"
  using getApproved_insertion_order [OF minted_no_approvals mixed_no_transfer, of True]
    getApproved_insertion_order [OF minted_no_approvals mixed_no_transfer, of False]
  by (simp add: mixed_granted stringToBytes_def)

subsection \<open>Reading a balance\<close>

text \<open>
  \<^verbatim>\<open>balanceOf\<close> never writes, and a pair whose key has no entry reads as 0.
\<close>

lemma balanceOf_absent_entry:
  "snd (balanceOf s owner ident) = s \<and>
   (\<not> Storage_has s (getBalanceKey owner ident) \<longrightarrow>
      balanceOf s owner ident = (Inr (u64ToBytes 0), s))"
  by (simp add: balanceOf_def balance'_def Let_def)

text \<open>
  Claim C9 fails on the code for a pair no mint or transfer has touched. On the freshly
  deployed contract one mint of 7 to 'x1' makes token 1 and writes the key 'BALANCEx11';
  the pair ('x', 11) has the same key, so its balance reads as 7.
\<close>

theorem balanceOf_untouched_pair:
  "fst (mint (deployed 2) ''x1'' 7) = Inr () \<and>
   currentSupply' (snd (mint (deployed 2) ''x1'' 7)) = 1 \<and>
   getBalanceKey ''x'' 11 = getBalanceKey ''x1'' 1 \<and>
   balance' (deployed 2) ''x'' 11 = 0 \<and>
   fst (balanceOf (snd (mint (deployed 2) ''x1'' 7)) ''x'' 11) = Inr (u64ToBytes 7)"
  by (simp add: balanceOf_def deployed_def callerAddress_def calls keys)

text \<open>
  Claim C10. A caller who holds the amount can transfer it to itself: the call succeeds
  and every balance, of every owner and token, reads as before.
\<close>

theorem self_transfer_identity:
  assumes "amount \<le> balance' s caller tokenId"
  shows "fst (transfer s caller caller tokenId amount) = Inr () \<and>
         (\<forall>owner ident. balance' (snd (transfer s caller caller tokenId amount)) owner ident
            = balance' s owner ident)"
proof -
  let ?old = "balance' s caller tokenId"
  have r: "transfer s caller caller tokenId amount =
      (Inr (), setBalance' (setBalance' (removeApprovals' s tokenId) caller tokenId (?old - amount))
                 caller tokenId (?old - amount + amount))"
    using assms by (simp add: transfer_def transfer'_def Let_def balance'_setBalance')
  have "balance' (snd (transfer s caller caller tokenId amount)) owner ident
          = balance' s owner ident" for owner ident
  proof (cases "getBalanceKey caller tokenId = getBalanceKey owner ident")
    case True
    then show ?thesis
      using balance'_same_key [OF True, of s] by (simp add: r balance'_setBalance')
  next
    case False
    then show ?thesis
      by (simp add: r balance'_setBalance')
  qed
  then show ?thesis
    by (simp add: r)
qed

text \<open>The caller sends 1 of its 2 of token 2 to itself.\<close>

theorem self_transfer_identity_witness:
  "fst (transfer minted callerAddress callerAddress 2 1) = Inr () \<and>
   balance' (snd (transfer minted callerAddress callerAddress 2 1)) callerAddress 2 = 2"
  using self_transfer_identity [of 1 minted callerAddress 2]
  by (simp add: minted_facts)

end
